theory Spec2Isabelle
  imports Main
begin

section \<open>The reminder check of the calendar chatbot\<close>

text \<open>
  A shallow embedding of \<^verbatim>\<open>check_and_remind\<close> of \<^verbatim>\<open>calender_chatbot.py\<close>: the loop
  over the fetched events, the global table \<^verbatim>\<open>SENT_REMINDERS\<close> and the calls of
  \<^verbatim>\<open>send_notification\<close>.

  \<^item> An aware \<^verbatim>\<open>datetime\<close> is the instant it denotes, in microseconds since the epoch;
    a \<^verbatim>\<open>timedelta\<close> is a number of microseconds (the resolution of Python's type).
    The difference of two aware datetimes is the difference of their instants.
  \<^item> The global dictionary is passed in and returned.
  \<^item> The notifications sent are returned as a list, in the order of the calls.
  \<^item> An exception that leaves the function is returned as a value, together with the
    table and the notifications as they are at the moment it is raised.
\<close>

subsection \<open>Data\<close>

type_synonym instant = int
type_synonym timedelta = int

definition seconds :: "int \<Rightarrow> timedelta" where
  "seconds n = n * 1000000"

definition minutes :: "int \<Rightarrow> timedelta" where
  "minutes n = n * 60000000"

datatype error = ValueError | KeyError

text \<open>The dictionary \<^verbatim>\<open>event['start']\<close>: the keys \<^verbatim>\<open>'dateTime'\<close> and \<^verbatim>\<open>'date'\<close>, each present or not.\<close>

record start_data =
  dateTime :: "string option"
  date :: "string option"

text \<open>An event: \<^verbatim>\<open>event['id']\<close>, \<^verbatim>\<open>event.get('summary')\<close>, \<^verbatim>\<open>event.get('htmlLink')\<close>, \<^verbatim>\<open>event['start']\<close>.\<close>

record event =
  event_id :: string
  summary :: "string option"
  htmlLink :: "string option"
  start :: start_data

text \<open>
  The keys of an inner dictionary of \<^verbatim>\<open>SENT_REMINDERS\<close>: the strings \<^verbatim>\<open>'started'\<close> and
  \<^verbatim>\<open>'all_day_today'\<close>, and the threshold in minutes.
\<close>

datatype milestone = Started | AllDayToday | Threshold int

type_synonym flags = "milestone \<rightharpoonup> bool"
type_synonym sent_reminders = "string \<rightharpoonup> flags"

text \<open>\<^verbatim>\<open>d.get(key, False)\<close> on an inner dictionary.\<close>

definition get_flag :: "flags \<Rightarrow> milestone \<Rightarrow> bool" where
  "get_flag fl k = (case fl k of None \<Rightarrow> False | Some b \<Rightarrow> b)"

text \<open>
  One call of \<^verbatim>\<open>send_notification(title, message)\<close>. The first two fields record where the
  call comes from: the identifier of the event being processed and the key that the
  following statement sets in \<^verbatim>\<open>SENT_REMINDERS[event_id]\<close>.
\<close>

record notification =
  for_event :: string
  for_milestone :: milestone
  title :: string
  message :: string

text \<open>
  What the reminder check takes from the standard library and from \<^verbatim>\<open>pytz\<close>, as
  parameters. A parser gives \<open>None\<close> where Python raises \<^verbatim>\<open>ValueError\<close>.
  \<^item> \<open>fromisoformat\<close>: \<^verbatim>\<open>datetime.fromisoformat(s)\<close>, as the instant that
    \<^verbatim>\<open>.astimezone(LOCAL_TIMEZONE)\<close> of the result denotes;
  \<^item> \<open>strptime_z\<close>: \<^verbatim>\<open>datetime.strptime(s, "%Y-%m-%dT%H:%M:%S%z")\<close>, likewise;
  \<^item> \<open>strptime_date\<close>: \<^verbatim>\<open>datetime.strptime(s, "%Y-%m-%d").date()\<close>, as a day number;
  \<^item> \<open>local_date\<close>: \<^verbatim>\<open>.date()\<close> of an instant in \<^verbatim>\<open>LOCAL_TIMEZONE\<close>, as a day number;
  \<^item> \<open>strftime_I_M_p\<close>: \<^verbatim>\<open>.strftime('%I:%M %p')\<close> of an instant in \<^verbatim>\<open>LOCAL_TIMEZONE\<close>.
\<close>

record library =
  fromisoformat :: "string \<Rightarrow> instant option"
  strptime_z :: "string \<Rightarrow> instant option"
  strptime_date :: "string \<Rightarrow> int option"
  local_date :: "instant \<Rightarrow> int"
  strftime_I_M_p :: "instant \<Rightarrow> string"

subsection \<open>Rendering\<close>

definition digit_char :: "nat \<Rightarrow> char" where
  "digit_char d = ''0123456789'' ! d"

fun str_nat :: "nat \<Rightarrow> string" where
  "str_nat n = (if n < 10 then [digit_char n] else str_nat (n div 10) @ [digit_char (n mod 10)])"

text \<open>\<^verbatim>\<open>str(n)\<close> of a Python integer.\<close>

definition str_int :: "int \<Rightarrow> string" where
  "str_int i = (if i < 0 then CHR ''-'' # str_nat (nat (- i)) else str_nat (nat i))"

text \<open>\<^verbatim>\<open>event.get('summary', 'No Title')\<close> and \<^verbatim>\<open>event.get('htmlLink', '#')\<close>.\<close>

definition event_summary :: "event \<Rightarrow> string" where
  "event_summary ev = (case summary ev of None \<Rightarrow> ''No Title'' | Some s \<Rightarrow> s)"

definition event_html_link :: "event \<Rightarrow> string" where
  "event_html_link ev = (case htmlLink ev of None \<Rightarrow> ''#'' | Some s \<Rightarrow> s)"

text \<open>
  Lines 183 to 187. \<^verbatim>\<open>int(time_to_event.total_seconds() // 60)\<close> goes through a float;
  it is only computed where a threshold fires, with \<open>0 < time_to_event < 16 min\<close>, where
  the float quotient and its floor are exact, so it is the integer floor division.
\<close>

definition minutes_left :: "timedelta \<Rightarrow> int" where
  "minutes_left time_to_event = time_to_event div 60000000"

definition minutes_text :: "int \<Rightarrow> string" where
  "minutes_text ml = (if ml = 0 then ''less than a minute'' else str_int ml @ '' minutes'')"

definition started_notification :: "event \<Rightarrow> notification" where
  "started_notification ev =
     \<lparr> for_event = event_id ev, for_milestone = Started,
       title = ''Event Started: '' @ event_summary ev,
       message = ''It's happening now! Link: '' @ event_html_link ev \<rparr>"

text \<open>
  \<^verbatim>\<open>LOCAL_TIMEZONE.tzname(event_start_time_local)\<close> of line 191. \<^verbatim>\<open>LOCAL_TIMEZONE\<close> is the
  zone object of \<^verbatim>\<open>pytz\<close>, and the argument is the aware datetime that
  \<^verbatim>\<open>astimezone(LOCAL_TIMEZONE)\<close> returned, whose \<^verbatim>\<open>tzinfo\<close> is the object of the period of
  the zone at that instant. The \<^verbatim>\<open>tzname\<close> of \<^verbatim>\<open>pytz\<close> localizes every datetime whose
  \<^verbatim>\<open>tzinfo\<close> is not the zone object itself, and \<^verbatim>\<open>localize\<close> raises \<^verbatim>\<open>ValueError\<close> on a
  datetime that has a \<^verbatim>\<open>tzinfo\<close>. The zone object itself stands for the first period of
  the zone only (local mean time, in the nineteenth century), where no event within
  reach of the clock of a run lies. So the call raises.
\<close>

definition tzname :: "instant \<Rightarrow> error + string" where
  "tzname event_start_time_local = Inl ValueError"

text \<open>
  The message of lines 189 to 193. The three parts of the first line are evaluated from
  left to right; the exception of \<^verbatim>\<open>tzname\<close> leaves the expression.
\<close>

definition upcoming_message :: "library \<Rightarrow> event \<Rightarrow> instant \<Rightarrow> timedelta \<Rightarrow> error + string" where
  "upcoming_message lib ev event_start time_to_event =
     (case tzname event_start of
        Inl e \<Rightarrow> Inl e
      | Inr name \<Rightarrow>
          Inr (''Starts in approx. '' @ minutes_text (minutes_left time_to_event) @ '' at ''
            @ strftime_I_M_p lib event_start @ '' ('' @ name @ '').''
            @ [CHR 0x0A] @ ''Link: '' @ event_html_link ev))"

definition upcoming_notification :: "event \<Rightarrow> int \<Rightarrow> string \<Rightarrow> notification" where
  "upcoming_notification ev threshold_minutes msg =
     \<lparr> for_event = event_id ev, for_milestone = Threshold threshold_minutes,
       title = ''Upcoming Event: '' @ event_summary ev,
       message = msg \<rparr>"

definition all_day_notification :: "event \<Rightarrow> notification" where
  "all_day_notification ev =
     \<lparr> for_event = event_id ev, for_milestone = AllDayToday,
       title = ''All-Day Event Today: '' @ event_summary ev,
       message = ''This all-day event is happening today! Details: '' @ event_html_link ev \<rparr>"

subsection \<open>The reminder check\<close>

text \<open>\<^verbatim>\<open>s.replace('Z', '+00:00')\<close>.\<close>

definition replace_Z :: "string \<Rightarrow> string" where
  "replace_Z s = concat (map (\<lambda>c. if c = CHR ''Z'' then ''+00:00'' else [c]) s)"

text \<open>
  Lines 146 to 154: \<^verbatim>\<open>fromisoformat\<close> on the string with \<^verbatim>\<open>Z\<close> replaced, and on
  \<^verbatim>\<open>ValueError\<close> \<^verbatim>\<open>strptime\<close> on the string as it is. \<open>None\<close> is the \<^verbatim>\<open>continue\<close> of line 154.
\<close>

definition parse_start :: "library \<Rightarrow> string \<Rightarrow> instant option" where
  "parse_start lib s =
     (case fromisoformat lib (replace_Z s) of
        Some t \<Rightarrow> Some t
      | None \<Rightarrow> strptime_z lib s)"

definition reminder_thresholds :: "int list" where
  "reminder_thresholds = [15, 5, 1]"

text \<open>\<^verbatim>\<open>sorted(xs, reverse=True)\<close> on integers.\<close>

definition sorted_reverse :: "int list \<Rightarrow> int list" where
  "sorted_reverse xs = rev (sort xs)"

text \<open>
  The loop of lines 175 to 197 over the thresholds still to examine, on the inner
  dictionary of the event. Where the condition of line 178 holds, the message is built
  first: its exception leaves the loop with nothing sent and no flag set. Otherwise the
  notification is sent, the flag is set, and the \<^verbatim>\<open>break\<close> is the branch without a
  recursive call.
\<close>

fun threshold_loop ::
  "library \<Rightarrow> event \<Rightarrow> instant \<Rightarrow> timedelta \<Rightarrow> int list \<Rightarrow> flags
     \<Rightarrow> flags \<times> notification list \<times> error option" where
  "threshold_loop lib ev event_start time_to_event [] fl = (fl, [], None)"
| "threshold_loop lib ev event_start time_to_event (threshold_minutes # rest) fl =
     (if seconds (- 10) \<le> time_to_event - minutes threshold_minutes
         \<and> time_to_event - minutes threshold_minutes < minutes 1
         \<and> time_to_event > seconds 0
         \<and> \<not> get_flag fl (Threshold threshold_minutes)
      then (case upcoming_message lib ev event_start time_to_event of
              Inl e \<Rightarrow> (fl, [], Some e)
            | Inr msg \<Rightarrow>
                (fl(Threshold threshold_minutes \<mapsto> True),
                 [upcoming_notification ev threshold_minutes msg], None))
      else threshold_loop lib ev event_start time_to_event rest fl)"

text \<open>
  Lines 156 to 197, for an event whose \<^verbatim>\<open>dateTime\<close> parsed to the instant \<open>event_start\<close>:
  the started window with its \<^verbatim>\<open>continue\<close>, then the threshold loop.
\<close>

definition timed_event ::
  "library \<Rightarrow> instant \<Rightarrow> event \<Rightarrow> instant \<Rightarrow> flags
     \<Rightarrow> flags \<times> notification list \<times> error option" where
  "timed_event lib now_local ev event_start fl =
     (let time_to_event = event_start - now_local in
      if minutes (- 5) < time_to_event \<and> time_to_event \<le> seconds 0 then
        (if \<not> get_flag fl Started
         then (fl(Started \<mapsto> True), [started_notification ev], None)
         else (fl, [], None))
      else threshold_loop lib ev event_start time_to_event (sorted_reverse reminder_thresholds) fl)"

text \<open>
  Lines 200 to 207, the branch of an event without \<^verbatim>\<open>dateTime\<close>. \<^verbatim>\<open>start_data['date']\<close>
  raises \<^verbatim>\<open>KeyError\<close> when the key is missing, and \<^verbatim>\<open>strptime\<close> is not inside a
  \<^verbatim>\<open>try\<close>: its \<^verbatim>\<open>ValueError\<close> leaves the function.
\<close>

definition all_day_event ::
  "library \<Rightarrow> instant \<Rightarrow> event \<Rightarrow> flags \<Rightarrow> flags \<times> notification list \<times> error option" where
  "all_day_event lib now_local ev fl =
     (case date (start ev) of
        None \<Rightarrow> (fl, [], Some KeyError)
      | Some event_date_str \<Rightarrow>
          (case strptime_date lib event_date_str of
             None \<Rightarrow> (fl, [], Some ValueError)
           | Some event_date \<Rightarrow>
               if event_date = local_date lib now_local \<and> \<not> get_flag fl AllDayToday
               then (fl(AllDayToday \<mapsto> True), [all_day_notification ev], None)
               else (fl, [], None)))"

text \<open>
  \<^verbatim>\<open>SENT_REMINDERS[event_id]\<close> after lines 141 and 142, which give a new identifier an
  empty inner dictionary.
\<close>

definition flags_of :: "sent_reminders \<Rightarrow> string \<Rightarrow> flags" where
  "flags_of S i = (case S i of None \<Rightarrow> Map.empty | Some d \<Rightarrow> d)"

text \<open>
  The body of the loop of line 136 for one event. Every branch returns the table with
  the inner dictionary of the event as the branch leaves it.
\<close>

definition process_event ::
  "library \<Rightarrow> instant \<Rightarrow> event \<Rightarrow> sent_reminders \<Rightarrow> sent_reminders \<times> notification list \<times> error option" where
  "process_event lib now_local ev SENT_REMINDERS =
     (let fl = flags_of SENT_REMINDERS (event_id ev) in
      case dateTime (start ev) of
        Some s \<Rightarrow>
          (case parse_start lib s of
             None \<Rightarrow> (SENT_REMINDERS(event_id ev \<mapsto> fl), [], None)
           | Some event_start \<Rightarrow>
               (case timed_event lib now_local ev event_start fl of
                  (fl', ns, r) \<Rightarrow> (SENT_REMINDERS(event_id ev \<mapsto> fl'), ns, r)))
      | None \<Rightarrow>
          (case all_day_event lib now_local ev fl of
             (fl', ns, r) \<Rightarrow> (SENT_REMINDERS(event_id ev \<mapsto> fl'), ns, r)))"

text \<open>The loop of line 136: an exception ends it, the events after it are not processed.\<close>

fun event_loop ::
  "library \<Rightarrow> instant \<Rightarrow> event list \<Rightarrow> sent_reminders \<Rightarrow> sent_reminders \<times> notification list \<times> error option" where
  "event_loop lib now_local [] S = (S, [], None)"
| "event_loop lib now_local (ev # evs) S =
     (case process_event lib now_local ev S of
        (S1, ns, Some e) \<Rightarrow> (S1, ns, Some e)
      | (S1, ns, None) \<Rightarrow>
          (case event_loop lib now_local evs S1 of
             (S2, ns2, r) \<Rightarrow> (S2, ns @ ns2, r)))"

text \<open>
  \<^verbatim>\<open>check_and_remind\<close>, from the clock reading \<open>now_local\<close> and the events that
  \<^verbatim>\<open>get_upcoming_events\<close> returned: the early return of line 132, then the loop.
\<close>

definition check_and_remind ::
  "library \<Rightarrow> instant \<Rightarrow> event list \<Rightarrow> sent_reminders \<Rightarrow> sent_reminders \<times> notification list \<times> error option" where
  "check_and_remind lib now_local events SENT_REMINDERS =
     (if events = [] then (SENT_REMINDERS, [], None)
      else event_loop lib now_local events SENT_REMINDERS)"

text \<open>
  The scheduler of line 217 runs the check again and again on the same table; each run
  has its own clock reading and its own fetched events. An exception of a run is logged
  by the scheduler and the next run takes place.
\<close>

fun scheduler_runs ::
  "library \<Rightarrow> (instant \<times> event list) list \<Rightarrow> sent_reminders \<Rightarrow> sent_reminders \<times> notification list" where
  "scheduler_runs lib [] S = (S, [])"
| "scheduler_runs lib ((now_local, events) # runs) S =
     (case check_and_remind lib now_local events S of
        (S1, ns, r) \<Rightarrow>
          (case scheduler_runs lib runs S1 of
             (S2, ns2) \<Rightarrow> (S2, ns @ ns2)))"

text \<open>\<^verbatim>\<open>SENT_REMINDERS = {}\<close> of line 105.\<close>

definition SENT_REMINDERS_initial :: sent_reminders where
  "SENT_REMINDERS_initial = Map.empty"

subsection \<open>Notions of the specification\<close>

text \<open>The state table's \<^verbatim>\<open>has_fired(id, milestone)\<close>: the flag is in the table and true.\<close>

definition has_fired :: "sent_reminders \<Rightarrow> string \<Rightarrow> milestone \<Rightarrow> bool" where
  "has_fired S i m = (case S i of None \<Rightarrow> False | Some d \<Rightarrow> get_flag d m)"

text \<open>The tolerance window of a threshold: \<open>-10s \<le> time_to_event - m < 60s\<close>.\<close>

definition in_window :: "timedelta \<Rightarrow> int \<Rightarrow> bool" where
  "in_window time_to_event m =
     (seconds (- 10) \<le> time_to_event - minutes m \<and> time_to_event - minutes m < minutes 1)"

text \<open>How many of the notifications sent belong to an identifier and a milestone.\<close>

definition emitted :: "string \<Rightarrow> milestone \<Rightarrow> notification list \<Rightarrow> nat" where
  "emitted i m ns = length (filter (\<lambda>n. for_event n = i \<and> for_milestone n = m) ns)"

text \<open>
  The table after lines 141 and 142 alone: a new identifier has an empty inner
  dictionary, nothing else differs.
\<close>

definition entry_created :: "sent_reminders \<Rightarrow> string \<Rightarrow> sent_reminders" where
  "entry_created S i = (case S i of None \<Rightarrow> S(i \<mapsto> Map.empty) | Some d \<Rightarrow> S)"

text \<open>
  The loop of line 136 gets as far as the event: no event before it in the batch raises.
\<close>

fun loop_processes :: "library \<Rightarrow> instant \<Rightarrow> event list \<Rightarrow> sent_reminders \<Rightarrow> event \<Rightarrow> bool" where
  "loop_processes lib now_local [] S ev = False"
| "loop_processes lib now_local (e # evs) S ev =
     (e = ev \<or>
      (case process_event lib now_local e S of
         (S1, ns, None) \<Rightarrow> loop_processes lib now_local evs S1 ev
       | (S1, ns, Some x) \<Rightarrow> False))"

text \<open>At least one of the runs, each on the table that the runs before it left, does so.\<close>

fun some_run_processes ::
  "library \<Rightarrow> (instant \<times> event list) list \<Rightarrow> sent_reminders \<Rightarrow> event \<Rightarrow> bool" where
  "some_run_processes lib [] S ev = False"
| "some_run_processes lib ((now_local, events) # runs) S ev =
     (loop_processes lib now_local events S ev \<or>
      some_run_processes lib runs (fst (check_and_remind lib now_local events S)) ev)"

subsection \<open>A library for concrete runs\<close>

text \<open>
  A library to evaluate the check on concrete events. It has Python's answers on the
  strings used below: 10:00 UTC of 1 January 2024 is 1704103200 seconds after the epoch
  and 15:30 in \<^verbatim>\<open>Asia/Kolkata\<close> (UTC+05:30, \<^verbatim>\<open>IST\<close>); 1 January 2024 is day 738886 of
  \<^verbatim>\<open>date.toordinal\<close>, the day after it is day 738887, and day 719163 is 1 January 1970;
  \<^verbatim>\<open>not-a-date\<close> is refused by all three parsers.
\<close>

definition two_digits :: "nat \<Rightarrow> string" where
  "two_digits n = [digit_char (n div 10), digit_char (n mod 10)]"

definition sample_strftime :: "instant \<Rightarrow> string" where
  "sample_strftime t =
     (let s = nat ((t div 1000000 + 19800) mod 86400);
          h = s div 3600;
          mi = (s mod 3600) div 60
      in two_digits (if h mod 12 = 0 then 12 else h mod 12) @ '':'' @ two_digits mi @ '' ''
         @ (if h < 12 then ''AM'' else ''PM''))"

definition sample_library :: library where
  "sample_library =
     \<lparr> fromisoformat = (\<lambda>s. if s = ''2024-01-01T10:00:00+00:00'' then Some 1704103200000000 else None),
       strptime_z = (\<lambda>s. if s = ''2024-01-01T10:00:00+00:00'' \<or> s = ''2024-01-01T10:00:00Z''
                          then Some 1704103200000000 else None),
       strptime_date = (\<lambda>s. if s = ''2024-01-01'' then Some 738886
                             else if s = ''2024-01-02'' then Some 738887 else None),
       local_date = (\<lambda>t. (t + 19800000000) div 86400000000 + 719163),
       strftime_I_M_p = sample_strftime \<rparr>"

text \<open>
  A timed event at 10:00 UTC of 1 January 2024, an all-day event of that day, the same
  all-day event moved to the next day, and two events whose start is no date.
\<close>

definition meeting :: event where
  "meeting = \<lparr> event_id = ''e1'', summary = Some ''Standup'', htmlLink = None,
               start = \<lparr> dateTime = Some ''2024-01-01T10:00:00Z'', date = None \<rparr> \<rparr>"

definition holiday :: event where
  "holiday = \<lparr> event_id = ''e2'', summary = Some ''New Year'', htmlLink = None,
               start = \<lparr> dateTime = None, date = Some ''2024-01-01'' \<rparr> \<rparr>"

definition holiday_moved :: event where
  "holiday_moved = \<lparr> event_id = ''e2'', summary = Some ''New Year'', htmlLink = None,
                     start = \<lparr> dateTime = None, date = Some ''2024-01-02'' \<rparr> \<rparr>"

definition bad_timed :: event where
  "bad_timed = \<lparr> event_id = ''e3'', summary = None, htmlLink = None,
                 start = \<lparr> dateTime = Some ''not-a-date'', date = None \<rparr> \<rparr>"

definition bad_all_day :: event where
  "bad_all_day = \<lparr> event_id = ''e4'', summary = None, htmlLink = None,
                   start = \<lparr> dateTime = None, date = Some ''not-a-date'' \<rparr> \<rparr>"

text \<open>The instant of 10:00 UTC of 1 January 2024, in microseconds.\<close>

definition ten_oclock :: instant where
  "ten_oclock = 1704103200000000"

text \<open>A table in which the started flag of \<open>e1\<close> is set.\<close>

definition started_sent :: sent_reminders where
  "started_sent = [''e1'' \<mapsto> [Started \<mapsto> True]]"

section \<open>Properties\<close>

subsection \<open>One event\<close>

lemma sorted_reverse_thresholds: "sorted_reverse reminder_thresholds = [15, 5, 1]"
  by (simp add: sorted_reverse_def reminder_thresholds_def)

lemma upcoming_message_raises: "upcoming_message lib ev es tte = Inl ValueError"
  by (simp add: upcoming_message_def tzname_def)

text \<open>The threshold loop sends nothing and sets nothing: it raises where a threshold is due.\<close>

lemma threshold_loop_raises:
  "threshold_loop lib ev es tte ms fl =
     (fl, [], if \<exists>m \<in> set ms. in_window tte m \<and> 0 < tte \<and> \<not> get_flag fl (Threshold m)
              then Some ValueError else None)"
  by (induction ms) (auto simp: in_window_def seconds_def upcoming_message_raises)

lemma timed_event_cases:
  assumes "timed_event lib now ev es fl = (fl', ns, r)"
  shows "(ns = [] \<and> fl' = fl) \<or>
         (\<exists>n. ns = [n] \<and> for_event n = event_id ev \<and> \<not> get_flag fl (for_milestone n)
              \<and> fl' = fl(for_milestone n \<mapsto> True) \<and> r = None)"
  using assms
  by (auto simp: timed_event_def Let_def threshold_loop_raises started_notification_def
        split: if_splits)

lemma all_day_event_cases:
  assumes "all_day_event lib now ev fl = (fl', ns, r)"
  shows "(ns = [] \<and> fl' = fl) \<or>
         (\<exists>n. ns = [n] \<and> for_event n = event_id ev \<and> \<not> get_flag fl (for_milestone n)
              \<and> fl' = fl(for_milestone n \<mapsto> True) \<and> r = None)"
  using assms
  by (auto simp: all_day_event_def all_day_notification_def split: if_splits option.splits)

text \<open>The branches of \<open>process_event\<close>, each as an equation.\<close>

lemma process_event_timed:
  assumes "dateTime (start ev) = Some s" "parse_start lib s = Some es"
  shows "process_event lib now ev S =
           (S(event_id ev \<mapsto> fst (timed_event lib now ev es (flags_of S (event_id ev)))),
            snd (timed_event lib now ev es (flags_of S (event_id ev))))"
  using assms by (simp add: process_event_def split: prod.splits)

lemma process_event_unparsed:
  assumes "dateTime (start ev) = Some s" "parse_start lib s = None"
  shows "process_event lib now ev S = (S(event_id ev \<mapsto> flags_of S (event_id ev)), [], None)"
  using assms by (simp add: process_event_def)

lemma process_event_all_day:
  assumes "dateTime (start ev) = None"
  shows "process_event lib now ev S =
           (S(event_id ev \<mapsto> fst (all_day_event lib now ev (flags_of S (event_id ev)))),
            snd (all_day_event lib now ev (flags_of S (event_id ev))))"
  using assms by (simp add: process_event_def split: prod.splits)

lemma process_event_cases:
  assumes "process_event lib now ev S = (S', ns, r)"
  shows "(ns = [] \<and> S' = S(event_id ev \<mapsto> flags_of S (event_id ev))) \<or>
         (\<exists>n. ns = [n] \<and> for_event n = event_id ev
              \<and> \<not> get_flag (flags_of S (event_id ev)) (for_milestone n)
              \<and> S' = S(event_id ev \<mapsto> (flags_of S (event_id ev))(for_milestone n \<mapsto> True))
              \<and> r = None)"
proof (cases "dateTime (start ev)")
  case None
  obtain fl' ns' r' where a: "all_day_event lib now ev (flags_of S (event_id ev)) = (fl', ns', r')"
    by (cases "all_day_event lib now ev (flags_of S (event_id ev))") auto
  from assms a have "S' = S(event_id ev \<mapsto> fl')" "ns = ns'" "r = r'"
    by (simp_all add: process_event_all_day[OF None])
  with all_day_event_cases[OF a] show ?thesis by auto
next
  case (Some s)
  show ?thesis
  proof (cases "parse_start lib s")
    case None
    with assms Some show ?thesis by (simp add: process_event_unparsed)
  next
    case (Some es)
    obtain fl' ns' r' where a: "timed_event lib now ev es (flags_of S (event_id ev)) = (fl', ns', r')"
      by (cases "timed_event lib now ev es (flags_of S (event_id ev))") auto
    from assms a have "S' = S(event_id ev \<mapsto> fl')" "ns = ns'" "r = r'"
      by (simp_all add: process_event_timed[OF \<open>dateTime (start ev) = Some s\<close> Some])
    with timed_event_cases[OF a] show ?thesis by auto
  qed
qed

subsection \<open>Flags and notifications\<close>

text \<open>
  Every step keeps the flags that are set, and sends one notification for an identifier
  and a milestone exactly when it sets that flag, which was not set before.
\<close>

lemma has_fired_ensure: "has_fired (S(i \<mapsto> flags_of S i)) j m = has_fired S j m"
  by (simp add: has_fired_def flags_of_def get_flag_def split: option.splits)

lemma has_fired_mark:
  "has_fired (S(i \<mapsto> (flags_of S i)(k \<mapsto> True))) j m = (has_fired S j m \<or> (j = i \<and> m = k))"
  by (auto simp: has_fired_def flags_of_def get_flag_def split: option.splits)

lemma get_flag_flags_of: "get_flag (flags_of S i) m = has_fired S i m"
  by (simp add: has_fired_def flags_of_def get_flag_def split: option.splits)

lemma entry_created_eq: "S(i \<mapsto> flags_of S i) = entry_created S i"
  by (auto simp: flags_of_def entry_created_def split: option.splits)

lemma has_fired_entry_created: "has_fired (entry_created S i) j m = has_fired S j m"
  unfolding entry_created_eq[symmetric] by (rule has_fired_ensure)

lemma has_fired_upd: "has_fired (S(i \<mapsto> fl)) i k = get_flag fl k"
  by (simp add: has_fired_def)

lemma emitted_append: "emitted i m (xs @ ys) = emitted i m xs + emitted i m ys"
  by (simp add: emitted_def)

lemma emitted_Nil: "emitted i m [] = 0"
  by (simp add: emitted_def)

lemma emitted_zero_iff:
  "emitted i m ns = 0 \<longleftrightarrow> (\<forall>n \<in> set ns. \<not> (for_event n = i \<and> for_milestone n = m))"
  by (simp add: emitted_def filter_empty_conv)

lemma process_event_inv:
  assumes "process_event lib now ev S = (S', ns, r)"
  shows "(has_fired S i m \<longrightarrow> has_fired S' i m) \<and>
         emitted i m ns = (if has_fired S' i m \<and> \<not> has_fired S i m then 1 else 0)"
  using process_event_cases[OF assms]
  by (auto simp: has_fired_ensure has_fired_mark get_flag_flags_of emitted_def)

lemma inv_compose:
  assumes "(a \<longrightarrow> b) \<and> x = (if b \<and> \<not> a then 1 else (0::nat))"
      and "(b \<longrightarrow> c) \<and> y = (if c \<and> \<not> b then 1 else (0::nat))"
  shows "(a \<longrightarrow> c) \<and> x + y = (if c \<and> \<not> a then 1 else 0)"
  using assms by (cases a; cases b; cases c; simp)

lemma event_loop_inv:
  "event_loop lib now evs S = (S', ns, r) \<Longrightarrow>
     (has_fired S i m \<longrightarrow> has_fired S' i m) \<and>
     emitted i m ns = (if has_fired S' i m \<and> \<not> has_fired S i m then 1 else 0)"
proof (induction evs arbitrary: S S' ns r)
  case Nil
  then show ?case by (simp add: emitted_Nil)
next
  case (Cons ev evs)
  obtain S1 ns1 r1 where p: "process_event lib now ev S = (S1, ns1, r1)"
    by (cases "process_event lib now ev S") auto
  note p_inv = process_event_inv[OF p, of i m]
  show ?case
  proof (cases r1)
    case (Some e)
    with Cons.prems p have eq: "S' = S1" "ns = ns1" by simp_all
    show ?thesis unfolding eq by (rule p_inv)
  next
    case None
    obtain S2 ns2 r2 where l: "event_loop lib now evs S1 = (S2, ns2, r2)"
      by (cases "event_loop lib now evs S1") auto
    from Cons.prems p None l have eq: "S' = S2" "ns = ns1 @ ns2" by simp_all
    show ?thesis
      unfolding eq emitted_append by (rule inv_compose[OF p_inv Cons.IH[OF l]])
  qed
qed

lemma check_and_remind_inv:
  assumes "check_and_remind lib now events S = (S', ns, r)"
  shows "(has_fired S i m \<longrightarrow> has_fired S' i m) \<and>
         emitted i m ns = (if has_fired S' i m \<and> \<not> has_fired S i m then 1 else 0)"
proof (cases "events = []")
  case True
  with assms show ?thesis by (simp add: check_and_remind_def emitted_Nil)
next
  case False
  with assms have "event_loop lib now events S = (S', ns, r)"
    by (simp add: check_and_remind_def)
  then show ?thesis by (rule event_loop_inv)
qed

lemma scheduler_runs_inv:
  "scheduler_runs lib runs S = (S', ns) \<Longrightarrow>
     (has_fired S i m \<longrightarrow> has_fired S' i m) \<and>
     emitted i m ns = (if has_fired S' i m \<and> \<not> has_fired S i m then 1 else 0)"
proof (induction runs arbitrary: S S' ns)
  case Nil
  then show ?case by (simp add: emitted_Nil)
next
  case (Cons run runs)
  obtain now events where run: "run = (now, events)" by (cases run)
  obtain S1 ns1 r1 where c: "check_and_remind lib now events S = (S1, ns1, r1)"
    by (cases "check_and_remind lib now events S") auto
  obtain S2 ns2 where l: "scheduler_runs lib runs S1 = (S2, ns2)"
    by (cases "scheduler_runs lib runs S1") auto
  from Cons.prems run c l have eq: "S' = S2" "ns = ns1 @ ns2" by simp_all
  show ?case
    unfolding eq emitted_append by (rule inv_compose[OF check_and_remind_inv[OF c] Cons.IH[OF l]])
qed

subsection \<open>The timed branch by the position of the clock\<close>

lemma timed_event_upcoming:
  assumes "0 < es - now"
  shows "timed_event lib now ev es fl =
     (fl, [],
      if (in_window (es - now) 15 \<and> \<not> get_flag fl (Threshold 15))
         \<or> (in_window (es - now) 5 \<and> \<not> get_flag fl (Threshold 5))
         \<or> (in_window (es - now) 1 \<and> \<not> get_flag fl (Threshold 1))
      then Some ValueError else None)"
  using assms
  by (simp add: timed_event_def threshold_loop_raises sorted_reverse_thresholds seconds_def Let_def)

lemma timed_event_started:
  assumes "minutes (- 5) < es - now" "es - now \<le> seconds 0"
  shows "timed_event lib now ev es fl =
     (if \<not> get_flag fl Started then (fl(Started \<mapsto> True), [started_notification ev], None)
      else (fl, [], None))"
  using assms by (simp add: timed_event_def Let_def)

lemma timed_event_past:
  assumes "es - now \<le> minutes (- 5)"
  shows "timed_event lib now ev es fl = (fl, [], None)"
  using assms
  by (simp add: timed_event_def threshold_loop_raises sorted_reverse_thresholds seconds_def
      minutes_def Let_def)

lemma clock_position:
  obtains "0 < es - now" | "minutes (- 5) < es - now \<and> es - now \<le> seconds 0"
    | "es - now \<le> minutes (- 5)"
  by (fastforce simp: seconds_def)

lemma started_milestone [simp]:
  "for_milestone (started_notification ev) = Started"
  "for_event (started_notification ev) = event_id ev"
  by (simp_all add: started_notification_def)

subsection \<open>The concrete events\<close>

lemma sample_parse_meeting:
  "parse_start sample_library ''2024-01-01T10:00:00Z'' = Some ten_oclock"
  by (simp add: parse_start_def sample_library_def replace_Z_def ten_oclock_def)

lemma sample_parse_bad:
  "fromisoformat sample_library (replace_Z ''not-a-date'') = None"
  "strptime_z sample_library ''not-a-date'' = None"
  "strptime_date sample_library ''not-a-date'' = None"
  by (simp_all add: sample_library_def replace_Z_def)

lemma meeting_fields:
  "dateTime (start meeting) = Some ''2024-01-01T10:00:00Z''" "event_id meeting = ''e1''"
  by (simp_all add: meeting_def)

lemma initial_not_fired: "\<not> has_fired SENT_REMINDERS_initial i m"
  by (simp add: has_fired_def SENT_REMINDERS_initial_def)

lemma bad_timed_fields:
  "dateTime (start bad_timed) = Some ''not-a-date''" "event_id bad_timed = ''e3''"
  by (simp_all add: bad_timed_def)

lemma bad_all_day_fields:
  "dateTime (start bad_all_day) = None" "date (start bad_all_day) = Some ''not-a-date''"
  "event_id bad_all_day = ''e4''"
  by (simp_all add: bad_all_day_def)

lemma holiday_fields:
  "dateTime (start holiday) = None" "date (start holiday) = Some ''2024-01-01''"
  "event_id holiday = ''e2''"
  by (simp_all add: holiday_def)

lemma holiday_moved_fields:
  "dateTime (start holiday_moved) = None" "date (start holiday_moved) = Some ''2024-01-02''"
  "event_id holiday_moved = ''e2''"
  by (simp_all add: holiday_moved_def)

lemma sample_parse_holiday:
  "strptime_date sample_library ''2024-01-01'' = Some 738886"
  "strptime_date sample_library ''2024-01-02'' = Some 738887"
  by (simp_all add: sample_library_def)

lemma sample_local_date:
  "local_date sample_library ten_oclock = 738886"
  "local_date sample_library (ten_oclock + minutes 1) = 738886"
  "local_date sample_library (ten_oclock + minutes 2) = 738886"
  "local_date sample_library (ten_oclock + minutes 1440) = 738887"
  "local_date sample_library (ten_oclock + minutes 1441) = 738887"
  by (simp_all add: sample_library_def ten_oclock_def minutes_def)

lemma sample_meeting_started:
  "process_event sample_library ten_oclock meeting SENT_REMINDERS_initial
     = (SENT_REMINDERS_initial(''e1'' \<mapsto> [Started \<mapsto> True]), [started_notification meeting], None)"
proof -
  have "timed_event sample_library ten_oclock meeting ten_oclock fl
      = (if \<not> get_flag fl Started
         then (fl(Started \<mapsto> True), [started_notification meeting], None)
         else (fl, [], None))" for fl
    by (rule timed_event_started) (simp_all add: minutes_def seconds_def)
  then show ?thesis
    by (simp add: process_event_timed[OF meeting_fields(1) sample_parse_meeting]
        meeting_fields(2) flags_of_def get_flag_def SENT_REMINDERS_initial_def)
qed

subsection \<open>Where a notification comes from\<close>

lemma process_event_milestones:
  assumes "n \<in> set (fst (snd (process_event lib now ev S)))"
  shows "for_event n = event_id ev \<and> (for_milestone n = Started \<or> for_milestone n = AllDayToday)"
proof (cases "dateTime (start ev)")
  case None
  with assms show ?thesis
    by (auto simp: process_event_all_day all_day_event_def all_day_notification_def
        split: option.splits if_splits)
next
  case (Some s)
  show ?thesis
  proof (cases "parse_start lib s")
    case None
    with assms Some show ?thesis by (simp add: process_event_unparsed)
  next
    case es: (Some es)
    from assms
    have n: "n \<in> set (fst (snd (timed_event lib now ev es (flags_of S (event_id ev)))))"
      by (simp add: process_event_timed[OF Some es])
    show ?thesis
    proof (cases es now rule: clock_position)
      case 1
      with n show ?thesis by (simp add: timed_event_upcoming)
    next
      case 2
      with n show ?thesis by (auto simp: timed_event_started split: if_splits)
    next
      case 3
      with n show ?thesis by (simp add: timed_event_past)
    qed
  qed
qed

lemma event_loop_origin:
  "n \<in> set (fst (snd (event_loop lib now evs S))) \<Longrightarrow>
     \<exists>ev \<in> set evs. \<exists>S0. n \<in> set (fst (snd (process_event lib now ev S0)))"
proof (induction evs arbitrary: S)
  case Nil
  then show ?case by simp
next
  case (Cons ev evs)
  obtain S1 ns1 r1 where p: "process_event lib now ev S = (S1, ns1, r1)"
    by (cases "process_event lib now ev S") auto
  show ?case
  proof (cases "n \<in> set ns1")
    case True
    with p have "n \<in> set (fst (snd (process_event lib now ev S)))" by simp
    then show ?thesis by auto
  next
    case False
    with Cons.prems p have "n \<in> set (fst (snd (event_loop lib now evs S1)))"
      by (cases r1) (auto split: prod.splits)
    from Cons.IH[OF this] show ?thesis by auto
  qed
qed

lemma scheduler_runs_origin:
  "n \<in> set (snd (scheduler_runs lib runs S)) \<Longrightarrow>
     \<exists>(now, events) \<in> set runs. \<exists>ev \<in> set events. \<exists>S0.
        n \<in> set (fst (snd (process_event lib now ev S0)))"
proof (induction runs arbitrary: S)
  case Nil
  then show ?case by simp
next
  case (Cons run runs)
  obtain now events where run: "run = (now, events)" by (cases run)
  obtain S1 ns1 r1 where c: "check_and_remind lib now events S = (S1, ns1, r1)"
    by (cases "check_and_remind lib now events S") auto
  show ?case
  proof (cases "n \<in> set ns1")
    case True
    with c have "n \<in> set (fst (snd (event_loop lib now events S)))"
      by (cases "events = []") (simp_all add: check_and_remind_def)
    from event_loop_origin[OF this] run show ?thesis by auto
  next
    case False
    with Cons.prems run c have "n \<in> set (snd (scheduler_runs lib runs S1))"
      by (auto split: prod.splits)
    from Cons.IH[OF this] show ?thesis by auto
  qed
qed

text \<open>No run ever sends the notification of a threshold.\<close>

lemma scheduler_runs_no_threshold:
  "emitted i (Threshold m) (snd (scheduler_runs lib runs S)) = 0"
  unfolding emitted_zero_iff
proof (intro ballI notI)
  fix n
  assume "n \<in> set (snd (scheduler_runs lib runs S))"
    and t: "for_event n = i \<and> for_milestone n = Threshold m"
  from scheduler_runs_origin[OF this(1)] obtain now ev S0 where
    "n \<in> set (fst (snd (process_event lib now ev S0)))" by blast
  from process_event_milestones[OF this] t show False by auto
qed

subsection \<open>A second look at an event\<close>

text \<open>
  An event that went through without an exception sends nothing on any table that has
  the flags it left; an event that raised raises again on a table with the same flags.
\<close>

lemma timed_event_quiet:
  assumes "timed_event lib now ev es fl = (fl1, ns1, None)"
      and "\<forall>k. get_flag fl1 k \<longrightarrow> get_flag g k"
  shows "timed_event lib now ev es g = (g, [], None)"
proof (cases es now rule: clock_position)
  case 1
  from assms(1) have "fl1 = fl"
    and "\<not> ((in_window (es - now) 15 \<and> \<not> get_flag fl (Threshold 15))
         \<or> (in_window (es - now) 5 \<and> \<not> get_flag fl (Threshold 5))
         \<or> (in_window (es - now) 1 \<and> \<not> get_flag fl (Threshold 1)))"
    unfolding timed_event_upcoming[OF 1] by (simp_all split: if_splits)
  with assms(2) show ?thesis
    unfolding timed_event_upcoming[OF 1] by auto
next
  case 2
  with assms(1) have "get_flag fl1 Started"
    by (auto simp: timed_event_started get_flag_def split: if_splits)
  with assms(2) 2 show ?thesis by (simp add: timed_event_started)
next
  case 3
  then show ?thesis by (rule timed_event_past)
qed

lemma timed_event_raises_again:
  assumes "timed_event lib now ev es fl = (fl1, ns1, Some e)"
      and "\<forall>k. get_flag g k = get_flag fl1 k"
  shows "timed_event lib now ev es g = (g, [], Some e)"
proof (cases es now rule: clock_position)
  case 1
  from assms(1) have "fl1 = fl" and "e = ValueError"
    and "(in_window (es - now) 15 \<and> \<not> get_flag fl (Threshold 15))
         \<or> (in_window (es - now) 5 \<and> \<not> get_flag fl (Threshold 5))
         \<or> (in_window (es - now) 1 \<and> \<not> get_flag fl (Threshold 1))"
    unfolding timed_event_upcoming[OF 1] by (simp_all split: if_splits)
  with assms(2) show ?thesis
    unfolding timed_event_upcoming[OF 1] by auto
next
  case 2
  with assms(1) show ?thesis by (simp add: timed_event_started split: if_splits)
next
  case 3
  with assms(1) show ?thesis by (simp add: timed_event_past)
qed

lemma all_day_event_quiet:
  assumes "all_day_event lib now ev fl = (fl1, ns1, r1)"
      and "\<forall>k. get_flag fl1 k \<longrightarrow> get_flag g k"
  shows "all_day_event lib now ev g = (g, [], r1)"
proof (cases "date (start ev)")
  case None
  with assms(1) show ?thesis by (simp add: all_day_event_def)
next
  case (Some d)
  show ?thesis
  proof (cases "strptime_date lib d")
    case None
    with assms(1) Some show ?thesis by (simp add: all_day_event_def)
  next
    case ed: (Some ed)
    show ?thesis
    proof (cases "ed = local_date lib now")
      case False
      with assms(1) Some ed show ?thesis by (simp add: all_day_event_def)
    next
      case True
      with assms(1) Some ed have "get_flag fl1 AllDayToday \<and> r1 = None"
        by (cases "get_flag fl AllDayToday") (auto simp: all_day_event_def get_flag_def)
      with assms(2) have "get_flag g AllDayToday" "r1 = None" by simp_all
      with Some ed show ?thesis by (simp add: all_day_event_def)
    qed
  qed
qed

lemma process_event_again:
  assumes "process_event lib now ev S = (S1, ns1, r1)"
      and "\<forall>k. has_fired T (event_id ev) k = has_fired S1 (event_id ev) k"
  shows "process_event lib now ev T = (entry_created T (event_id ev), [], r1)"
proof (cases "dateTime (start ev)")
  case None
  obtain fl1 ns' r' where a: "all_day_event lib now ev (flags_of S (event_id ev)) = (fl1, ns', r')"
    by (cases "all_day_event lib now ev (flags_of S (event_id ev))") auto
  with assms(1) have S1: "S1 = S(event_id ev \<mapsto> fl1)" and r: "r' = r1"
    by (simp_all add: process_event_all_day[OF None])
  from assms(2) have "\<forall>k. get_flag fl1 k \<longrightarrow> get_flag (flags_of T (event_id ev)) k"
    unfolding S1 has_fired_upd get_flag_flags_of by simp
  from all_day_event_quiet[OF a this] show ?thesis
    by (simp add: process_event_all_day[OF None] entry_created_eq r)
next
  case (Some s)
  show ?thesis
  proof (cases "parse_start lib s")
    case None
    with assms(1) Some show ?thesis by (simp add: process_event_unparsed entry_created_eq)
  next
    case es: (Some es)
    obtain fl1 ns' r' where a: "timed_event lib now ev es (flags_of S (event_id ev)) = (fl1, ns', r')"
      by (cases "timed_event lib now ev es (flags_of S (event_id ev))") auto
    with assms(1) have S1: "S1 = S(event_id ev \<mapsto> fl1)" and r: "r' = r1"
      by (simp_all add: process_event_timed[OF Some es])
    from assms(2) have eq: "\<forall>k. get_flag (flags_of T (event_id ev)) k = get_flag fl1 k"
      unfolding S1 has_fired_upd get_flag_flags_of by simp
    have "timed_event lib now ev es (flags_of T (event_id ev))
        = (flags_of T (event_id ev), [], r1)"
    proof (cases r1)
      case None
      with a r have "timed_event lib now ev es (flags_of S (event_id ev)) = (fl1, ns', None)"
        by simp
      from timed_event_quiet[OF this] eq None show ?thesis by simp
    next
      case (Some e)
      with a r have "timed_event lib now ev es (flags_of S (event_id ev)) = (fl1, ns', Some e)"
        by simp
      from timed_event_raises_again[OF this eq] Some show ?thesis by simp
    qed
    then show ?thesis
      by (simp add: process_event_timed[OF Some es] entry_created_eq)
  qed
qed

lemma process_event_quiet:
  assumes "process_event lib now ev S = (S1, ns1, None)"
      and "\<forall>k. has_fired S1 (event_id ev) k \<longrightarrow> has_fired T (event_id ev) k"
  shows "process_event lib now ev T = (entry_created T (event_id ev), [], None)"
proof (cases "dateTime (start ev)")
  case None
  obtain fl1 ns' r' where a: "all_day_event lib now ev (flags_of S (event_id ev)) = (fl1, ns', r')"
    by (cases "all_day_event lib now ev (flags_of S (event_id ev))") auto
  with assms(1) have S1: "S1 = S(event_id ev \<mapsto> fl1)" and r: "r' = None"
    by (simp_all add: process_event_all_day[OF None])
  from assms(2) have "\<forall>k. get_flag fl1 k \<longrightarrow> get_flag (flags_of T (event_id ev)) k"
    unfolding S1 has_fired_upd get_flag_flags_of .
  from all_day_event_quiet[OF a this] show ?thesis
    by (simp add: process_event_all_day[OF None] entry_created_eq r)
next
  case (Some s)
  show ?thesis
  proof (cases "parse_start lib s")
    case None
    with Some show ?thesis by (simp add: process_event_unparsed entry_created_eq)
  next
    case es: (Some es)
    obtain fl1 ns' r' where a: "timed_event lib now ev es (flags_of S (event_id ev)) = (fl1, ns', r')"
      by (cases "timed_event lib now ev es (flags_of S (event_id ev))") auto
    with assms(1) have S1: "S1 = S(event_id ev \<mapsto> fl1)" and r: "r' = None"
      by (simp_all add: process_event_timed[OF Some es])
    from assms(2) have "\<forall>k. get_flag fl1 k \<longrightarrow> get_flag (flags_of T (event_id ev)) k"
      unfolding S1 has_fired_upd get_flag_flags_of .
    from timed_event_quiet[OF a[unfolded r] this] show ?thesis
      by (simp add: process_event_timed[OF Some es] entry_created_eq)
  qed
qed

lemma event_loop_quiet:
  "event_loop lib now evs S = (S1, ns1, r1) \<Longrightarrow>
   \<forall>i k. has_fired T i k = has_fired S1 i k \<Longrightarrow>
   fst (snd (event_loop lib now evs T)) = []"
proof (induction evs arbitrary: S T S1 ns1 r1)
  case Nil
  then show ?case by simp
next
  case (Cons ev evs)
  obtain Sa na ra where p: "process_event lib now ev S = (Sa, na, ra)"
    by (cases "process_event lib now ev S") auto
  show ?case
  proof (cases ra)
    case (Some e)
    with Cons.prems(1) p have "S1 = Sa" by simp
    with Cons.prems(2) have "\<forall>k. has_fired T (event_id ev) k = has_fired Sa (event_id ev) k"
      by simp
    from process_event_again[OF p this] Some show ?thesis by simp
  next
    case None
    obtain Sb nb rb where l: "event_loop lib now evs Sa = (Sb, nb, rb)"
      by (cases "event_loop lib now evs Sa") auto
    from Cons.prems(1) p None l have "S1 = Sb" by simp
    with event_loop_inv[OF l] Cons.prems(2)
    have "\<forall>k. has_fired Sa (event_id ev) k \<longrightarrow> has_fired T (event_id ev) k"
      by blast
    from process_event_quiet[OF p[unfolded None] this]
    have q: "process_event lib now ev T = (entry_created T (event_id ev), [], None)" .
    from Cons.prems(2) \<open>S1 = Sb\<close>
    have "\<forall>i k. has_fired (entry_created T (event_id ev)) i k = has_fired Sb i k"
      by (simp add: has_fired_entry_created)
    from Cons.IH[OF l this] q show ?thesis by (simp split: prod.splits)
  qed
qed

subsection \<open>All-day events\<close>

lemma process_event_all_day_parsed:
  assumes "dateTime (start ev) = None" and "date (start ev) = Some d"
      and "strptime_date lib d = Some ed"
  shows "process_event lib now ev S =
     (if ed = local_date lib now \<and> \<not> has_fired S (event_id ev) AllDayToday
      then (S(event_id ev \<mapsto> (flags_of S (event_id ev))(AllDayToday \<mapsto> True)),
            [all_day_notification ev], None)
      else (entry_created S (event_id ev), [], None))"
  using assms(2,3)
  by (simp add: process_event_all_day[OF assms(1)] all_day_event_def get_flag_flags_of
      entry_created_eq)

lemma loop_processes_fires:
  assumes "dateTime (start ev) = None" and "date (start ev) = Some d"
      and "strptime_date lib d = Some (local_date lib now)"
  shows "loop_processes lib now evs S ev \<Longrightarrow>
         has_fired (fst (event_loop lib now evs S)) (event_id ev) AllDayToday"
proof (induction evs arbitrary: S)
  case Nil
  then show ?case by simp
next
  case (Cons e evs)
  obtain S1 ns1 r1 where p: "process_event lib now e S = (S1, ns1, r1)"
    by (cases "process_event lib now e S") auto
  show ?case
  proof (cases "e = ev")
    case True
    from p have S1: "has_fired S1 (event_id ev) AllDayToday" and r1: "r1 = None"
      unfolding True process_event_all_day_parsed[OF assms]
      by (auto simp: has_fired_mark has_fired_entry_created split: if_splits)
    obtain S2 ns2 r2 where l: "event_loop lib now evs S1 = (S2, ns2, r2)"
      by (cases "event_loop lib now evs S1") auto
    from p r1 l have "fst (event_loop lib now (e # evs) S) = S2" by simp
    with event_loop_inv[OF l] S1 show ?thesis by simp
  next
    case False
    with Cons.prems p have r1: "r1 = None" and rest: "loop_processes lib now evs S1 ev"
      by (cases r1; simp)+
    obtain S2 ns2 r2 where l: "event_loop lib now evs S1 = (S2, ns2, r2)"
      by (cases "event_loop lib now evs S1") auto
    from p r1 l have "fst (event_loop lib now (e # evs) S) = S2" by simp
    with Cons.IH[OF rest] l show ?thesis by simp
  qed
qed

lemma loop_processes_nonempty: "loop_processes lib now evs S ev \<Longrightarrow> evs \<noteq> []"
  by (cases evs) simp_all

lemma some_run_processes_fires:
  assumes "dateTime (start ev) = None" and "date (start ev) = Some d"
      and "strptime_date lib d = Some ed"
  shows "\<forall>(now', events) \<in> set runs. local_date lib now' = ed \<Longrightarrow>
         some_run_processes lib runs S ev \<Longrightarrow>
         has_fired (fst (scheduler_runs lib runs S)) (event_id ev) AllDayToday"
proof (induction runs arbitrary: S)
  case Nil
  then show ?case by simp
next
  case (Cons run runs)
  obtain now' events where run: "run = (now', events)" by (cases run)
  obtain S1 ns1 r1 where c: "check_and_remind lib now' events S = (S1, ns1, r1)"
    by (cases "check_and_remind lib now' events S") auto
  obtain S2 ns2 where l: "scheduler_runs lib runs S1 = (S2, ns2)"
    by (cases "scheduler_runs lib runs S1") auto
  from run c l have res: "fst (scheduler_runs lib (run # runs) S) = S2" by simp
  from Cons.prems(1) run have day: "local_date lib now' = ed"
    and days: "\<forall>(now', events) \<in> set runs. local_date lib now' = ed" by simp_all
  show ?case
  proof (cases "loop_processes lib now' events S ev")
    case True
    from assms(3) day have "strptime_date lib d = Some (local_date lib now')" by simp
    from loop_processes_fires[OF assms(1,2) this True]
    have "has_fired (fst (event_loop lib now' events S)) (event_id ev) AllDayToday" .
    with c loop_processes_nonempty[OF True]
    have "has_fired S1 (event_id ev) AllDayToday" by (simp add: check_and_remind_def)
    with scheduler_runs_inv[OF l] show ?thesis unfolding res by blast
  next
    case False
    with Cons.prems(2) run c have "some_run_processes lib runs S1 ev" by simp
    from Cons.IH[OF days this] l show ?thesis unfolding res by simp
  qed
qed

subsection \<open>Claims\<close>

text \<open>
  C1. For every identifier and milestone, over any sequence of runs of the check, with any
  events and any clock readings, from any table: at most one notification is sent for
  the pair, and a flag that is set in the table is still set after all the runs.
\<close>

theorem at_most_once_per_milestone:
  "emitted i m (snd (scheduler_runs lib runs S)) \<le> 1 \<and>
   (has_fired S i m \<longrightarrow> has_fired (fst (scheduler_runs lib runs S)) i m)"
  using scheduler_runs_inv[of lib runs S "fst (scheduler_runs lib runs S)"
      "snd (scheduler_runs lib runs S)" i m]
  by simp

theorem at_most_once_per_milestone_witness:
  "has_fired started_sent ''e1'' Started \<and>
   has_fired (fst (scheduler_runs sample_library
      [(ten_oclock, [meeting]), (ten_oclock + seconds 60, [meeting, holiday])] started_sent))
     ''e1'' Started \<and>
   emitted ''e1'' Started (snd (scheduler_runs sample_library
      [(ten_oclock, [meeting]), (ten_oclock + seconds 60, [meeting, holiday])] started_sent)) \<le> 1"
proof -
  have h: "has_fired started_sent ''e1'' Started"
    by (simp add: has_fired_def started_sent_def get_flag_def)
  from h at_most_once_per_milestone[of "''e1''" Started sample_library
      "[(ten_oclock, [meeting]), (ten_oclock + seconds 60, [meeting, holiday])]" started_sent]
  show ?thesis by blast
qed

text \<open>
  C3. For a timed event whose start parses: a started notification is sent exactly when
  the time to the event is above minus 5 minutes and at most 0 and the started flag is
  not set; then it is the only notification and the started flag is set afterwards; and
  whenever the time to the event is in that range, no threshold notification is sent and
  no threshold flag changes.
\<close>

theorem started_window:
  assumes "dateTime (start ev) = Some s" and "parse_start lib s = Some es"
      and "process_event lib now ev S = (S', ns, r)"
  shows "((\<exists>n \<in> set ns. for_milestone n = Started)
            = (minutes (- 5) < es - now \<and> es - now \<le> seconds 0
                \<and> \<not> has_fired S (event_id ev) Started)) \<and>
    ((\<exists>n \<in> set ns. for_milestone n = Started) \<longrightarrow>
        ns = [started_notification ev] \<and> has_fired S' (event_id ev) Started) \<and>
    (minutes (- 5) < es - now \<and> es - now \<le> seconds 0 \<longrightarrow>
        (\<forall>m. (\<forall>n \<in> set ns. for_milestone n \<noteq> Threshold m) \<and>
             has_fired S' (event_id ev) (Threshold m) = has_fired S (event_id ev) (Threshold m)))"
proof -
  let ?fl = "flags_of S (event_id ev)"
  let ?t = "es - now"
  have S': "S' = S(event_id ev \<mapsto> fst (timed_event lib now ev es ?fl))"
    and ns: "ns = fst (snd (timed_event lib now ev es ?fl))"
    using assms(3) by (simp_all add: process_event_timed[OF assms(1,2)])
  show ?thesis
  proof (cases "minutes (- 5) < ?t \<and> ?t \<le> seconds 0")
    case True
    then have te: "timed_event lib now ev es ?fl =
        (if \<not> get_flag ?fl Started then (?fl(Started \<mapsto> True), [started_notification ev], None)
         else (?fl, [], None))"
      by (simp add: timed_event_started)
    show ?thesis
      using True unfolding S' ns te has_fired_upd
      by (auto simp: get_flag_flags_of[symmetric] get_flag_def)
  next
    case False
    have "\<forall>n \<in> set ns. for_milestone n \<noteq> Started"
    proof (cases "0 < ?t")
      case True
      show ?thesis unfolding ns timed_event_upcoming[OF True] by simp
    next
      case F: False
      with False have "?t \<le> minutes (- 5)" by (simp add: seconds_def)
      then show ?thesis unfolding ns by (simp add: timed_event_past)
    qed
    with False show ?thesis by blast
  qed
qed

theorem started_window_witness:
  "dateTime (start meeting) = Some ''2024-01-01T10:00:00Z'' \<and>
   parse_start sample_library ''2024-01-01T10:00:00Z'' = Some ten_oclock \<and>
   minutes (- 5) < ten_oclock - (ten_oclock + seconds 30) \<and>
   ten_oclock - (ten_oclock + seconds 30) \<le> seconds 0 \<and>
   fst (snd (process_event sample_library (ten_oclock + seconds 30) meeting SENT_REMINDERS_initial))
     = [started_notification meeting] \<and>
   has_fired (fst (process_event sample_library (ten_oclock + seconds 30) meeting
       SENT_REMINDERS_initial)) ''e1'' Started"
proof -
  let ?now = "ten_oclock + seconds 30"
  let ?p = "process_event sample_library ?now meeting SENT_REMINDERS_initial"
  have w: "minutes (- 5) < ten_oclock - ?now" "ten_oclock - ?now \<le> seconds 0"
    by (simp_all add: minutes_def seconds_def)
  have h3: "?p = (fst ?p, fst (snd ?p), snd (snd ?p))" by simp
  note T = started_window[OF meeting_fields(1) sample_parse_meeting h3]
  from T w initial_not_fired[of "event_id meeting" Started]
  have "fst (snd ?p) = [started_notification meeting]
        \<and> has_fired (fst ?p) (event_id meeting) Started" by blast
  with w meeting_fields sample_parse_meeting show ?thesis by simp
qed

text \<open>
  C4. The claim says that an event whose start neither format parses leaves the state
  table as it was. The table is not the same: lines 141 and 142 run before the parsing
  and give a new identifier its empty entry. What holds: for such an event no
  notification is sent, nothing is raised, no flag changes, and the table differs from
  the one before only by that empty entry of a new identifier.
\<close>

theorem unparseable_start_skipped:
  assumes "dateTime (start ev) = Some s"
      and "fromisoformat lib (replace_Z s) = None" and "strptime_z lib s = None"
  shows "process_event lib now ev S = (entry_created S (event_id ev), [], None) \<and>
         (\<forall>i m. has_fired (entry_created S (event_id ev)) i m = has_fired S i m) \<and>
         (\<forall>i. i \<noteq> event_id ev \<longrightarrow> entry_created S (event_id ev) i = S i) \<and>
         entry_created S (event_id ev) (event_id ev)
           = Some (case S (event_id ev) of None \<Rightarrow> Map.empty | Some d \<Rightarrow> d)"
proof -
  from assms(2,3) have "parse_start lib s = None" by (simp add: parse_start_def)
  then have "process_event lib now ev S = (entry_created S (event_id ev), [], None)"
    by (simp add: process_event_unparsed[OF assms(1)] entry_created_eq)
  moreover have "\<forall>i. i \<noteq> event_id ev \<longrightarrow> entry_created S (event_id ev) i = S i"
    by (simp add: entry_created_def split: option.splits)
  moreover have "entry_created S (event_id ev) (event_id ev)
           = Some (case S (event_id ev) of None \<Rightarrow> Map.empty | Some d \<Rightarrow> d)"
    by (simp add: entry_created_def split: option.splits)
  ultimately show ?thesis by (simp add: has_fired_entry_created)
qed

theorem unparseable_start_skipped_witness:
  "dateTime (start bad_timed) = Some ''not-a-date'' \<and>
   fromisoformat sample_library (replace_Z ''not-a-date'') = None \<and>
   strptime_z sample_library ''not-a-date'' = None \<and>
   process_event sample_library ten_oclock bad_timed started_sent
     = (entry_created started_sent ''e3'', [], None) \<and>
   entry_created started_sent ''e3'' ''e3'' = Some Map.empty \<and>
   entry_created started_sent ''e3'' ''e1'' = started_sent ''e1''"
  using unparseable_start_skipped[OF bad_timed_fields(1) sample_parse_bad(1,2),
      of ten_oclock started_sent]
    bad_timed_fields sample_parse_bad(1,2)
  by (simp add: started_sent_def)

text \<open>
  C4, the claim as it is written: on the empty table, the event whose start is
  \<^verbatim>\<open>not-a-date\<close> leaves a table that is not the empty one.
\<close>

theorem unparseable_start_counterexample:
  "dateTime (start bad_timed) = Some ''not-a-date'' \<and>
   fromisoformat sample_library (replace_Z ''not-a-date'') = None \<and>
   strptime_z sample_library ''not-a-date'' = None \<and>
   fst (process_event sample_library ten_oclock bad_timed SENT_REMINDERS_initial)
     \<noteq> SENT_REMINDERS_initial"
proof -
  have "parse_start sample_library ''not-a-date'' = None"
    by (simp add: parse_start_def sample_parse_bad)
  then have "fst (process_event sample_library ten_oclock bad_timed SENT_REMINDERS_initial) ''e3''
      = Some Map.empty"
    by (simp add: process_event_unparsed[OF bad_timed_fields(1)] bad_timed_fields(2)
        flags_of_def SENT_REMINDERS_initial_def)
  moreover have "SENT_REMINDERS_initial ''e3'' = None"
    by (simp add: SENT_REMINDERS_initial_def)
  ultimately have "fst (process_event sample_library ten_oclock bad_timed SENT_REMINDERS_initial)
     \<noteq> SENT_REMINDERS_initial" by force
  with bad_timed_fields(1) sample_parse_bad(1,2) show ?thesis by blast
qed

text \<open>
  C10. For a timed event whose start parses and whose time to the event is at most minus
  5 minutes: no notification is sent, nothing is raised, no flag changes, and the table
  differs from the one before only by the empty entry of a new identifier.
\<close>

theorem past_event_ignored:
  assumes "dateTime (start ev) = Some s" and "parse_start lib s = Some es"
      and "es - now \<le> minutes (- 5)"
  shows "process_event lib now ev S = (entry_created S (event_id ev), [], None) \<and>
         (\<forall>i m. has_fired (entry_created S (event_id ev)) i m = has_fired S i m) \<and>
         (\<forall>i. i \<noteq> event_id ev \<longrightarrow> entry_created S (event_id ev) i = S i) \<and>
         entry_created S (event_id ev) (event_id ev)
           = Some (case S (event_id ev) of None \<Rightarrow> Map.empty | Some d \<Rightarrow> d)"
proof -
  have "process_event lib now ev S = (entry_created S (event_id ev), [], None)"
    by (simp add: process_event_timed[OF assms(1,2)] timed_event_past[OF assms(3)]
        entry_created_eq)
  moreover have "\<forall>i. i \<noteq> event_id ev \<longrightarrow> entry_created S (event_id ev) i = S i"
    by (simp add: entry_created_def split: option.splits)
  moreover have "entry_created S (event_id ev) (event_id ev)
           = Some (case S (event_id ev) of None \<Rightarrow> Map.empty | Some d \<Rightarrow> d)"
    by (simp add: entry_created_def split: option.splits)
  ultimately show ?thesis by (simp add: has_fired_entry_created)
qed

theorem past_event_ignored_witness:
  "dateTime (start meeting) = Some ''2024-01-01T10:00:00Z'' \<and>
   parse_start sample_library ''2024-01-01T10:00:00Z'' = Some ten_oclock \<and>
   ten_oclock - (ten_oclock + minutes 5) \<le> minutes (- 5) \<and>
   process_event sample_library (ten_oclock + minutes 5) meeting SENT_REMINDERS_initial
     = (entry_created SENT_REMINDERS_initial ''e1'', [], None) \<and>
   entry_created SENT_REMINDERS_initial ''e1'' ''e1'' = Some Map.empty"
proof -
  have h: "ten_oclock - (ten_oclock + minutes 5) \<le> minutes (- 5)"
    by (simp add: minutes_def)
  from past_event_ignored[OF meeting_fields(1) sample_parse_meeting h, of SENT_REMINDERS_initial]
    meeting_fields sample_parse_meeting h
  show ?thesis by (simp add: SENT_REMINDERS_initial_def)
qed

text \<open>
  C5. The claim says that the check never raises, and that an all-day date that does not
  parse is logged and skipped. The \<^verbatim>\<open>strptime\<close> of line 201 is outside any \<^verbatim>\<open>try\<close>:
  with the all-day event of date \<^verbatim>\<open>not-a-date\<close> first in the batch, the check ends with
  \<^verbatim>\<open>ValueError\<close> and the meeting after it, which is starting and alone would get its
  started notification, is never processed.
\<close>

theorem all_day_parse_error_leaves_check:
  "check_and_remind sample_library ten_oclock [bad_all_day, meeting] SENT_REMINDERS_initial
     = (entry_created SENT_REMINDERS_initial ''e4'', [], Some ValueError) \<and>
   fst (snd (check_and_remind sample_library ten_oclock [meeting] SENT_REMINDERS_initial))
     = [started_notification meeting]"
proof -
  have a: "all_day_event sample_library ten_oclock bad_all_day fl = (fl, [], Some ValueError)" for fl
    by (simp add: all_day_event_def bad_all_day_fields sample_parse_bad)
  have "process_event sample_library ten_oclock bad_all_day SENT_REMINDERS_initial
     = (entry_created SENT_REMINDERS_initial ''e4'', [], Some ValueError)"
    by (simp add: process_event_all_day[OF bad_all_day_fields(1)] a bad_all_day_fields(3)
        entry_created_eq)
  then have 1: "check_and_remind sample_library ten_oclock [bad_all_day, meeting] SENT_REMINDERS_initial
     = (entry_created SENT_REMINDERS_initial ''e4'', [], Some ValueError)"
    by (simp add: check_and_remind_def)
  note sample_meeting_started
  then have 2: "fst (snd (check_and_remind sample_library ten_oclock [meeting] SENT_REMINDERS_initial))
     = [started_notification meeting]"
    by (simp add: check_and_remind_def)
  from 1 2 show ?thesis by blast
qed

text \<open>
  C7. For any events, clock reading and table: a second check with the same events and
  the same clock, on the table that the first check left, sends no notification.
\<close>

theorem idempotent_repoll:
  "fst (snd (check_and_remind lib now events (fst (check_and_remind lib now events S)))) = []"
proof (cases "events = []")
  case True
  then show ?thesis by (simp add: check_and_remind_def)
next
  case False
  obtain S1 ns1 r1 where l: "event_loop lib now events S = (S1, ns1, r1)"
    by (cases "event_loop lib now events S") auto
  have "fst (snd (event_loop lib now events S1)) = []"
    by (rule event_loop_quiet[OF l]) simp
  with False l show ?thesis by (simp add: check_and_remind_def)
qed

theorem idempotent_repoll_witness:
  "fst (snd (check_and_remind sample_library ten_oclock [meeting, holiday] SENT_REMINDERS_initial))
     = [started_notification meeting, all_day_notification holiday] \<and>
   fst (snd (check_and_remind sample_library ten_oclock [meeting, holiday]
     (fst (check_and_remind sample_library ten_oclock [meeting, holiday] SENT_REMINDERS_initial))))
     = []"
proof -
  let ?S1 = "SENT_REMINDERS_initial(''e1'' \<mapsto> [Started \<mapsto> True])"
  note m = sample_meeting_started
  have "\<not> has_fired ?S1 (event_id holiday) AllDayToday"
    by (simp add: has_fired_def holiday_fields(3) SENT_REMINDERS_initial_def)
  then have "\<exists>S2. process_event sample_library ten_oclock holiday ?S1
      = (S2, [all_day_notification holiday], None)"
    by (simp add: process_event_all_day_parsed[OF holiday_fields(1,2) sample_parse_holiday(1)]
        sample_local_date(1))
  then obtain S2 where h: "process_event sample_library ten_oclock holiday ?S1
      = (S2, [all_day_notification holiday], None)" ..
  from m h have "fst (snd (check_and_remind sample_library ten_oclock [meeting, holiday]
      SENT_REMINDERS_initial)) = [started_notification meeting, all_day_notification holiday]"
    by (simp add: check_and_remind_def)
  with idempotent_repoll[of sample_library ten_oclock "[meeting, holiday]" SENT_REMINDERS_initial]
  show ?thesis by blast
qed

text \<open>
  C2. The claim says that a threshold fires when the time to the event is in its window
  and its flag is not set. The meeting is 15 minutes ahead, in the window of the
  threshold 15, on the empty table: the message of lines 189 to 193 is built before the
  notification is sent, \<^verbatim>\<open>tzname\<close> raises in it, and the check is left with \<^verbatim>\<open>ValueError\<close>,
  nothing sent and no flag set.
\<close>

theorem threshold_due_raises:
  "in_window (ten_oclock - (ten_oclock - minutes 15)) 15 \<and>
   \<not> has_fired SENT_REMINDERS_initial ''e1'' (Threshold 15) \<and>
   process_event sample_library (ten_oclock - minutes 15) meeting SENT_REMINDERS_initial
     = (entry_created SENT_REMINDERS_initial ''e1'', [], Some ValueError) \<and>
   \<not> has_fired (entry_created SENT_REMINDERS_initial ''e1'') ''e1'' (Threshold 15)"
proof -
  let ?now = "ten_oclock - minutes 15"
  have w: "in_window (ten_oclock - ?now) 15"
    by (simp add: in_window_def minutes_def seconds_def)
  have pos: "0 < ten_oclock - ?now" by (simp add: minutes_def)
  from w have "timed_event sample_library ?now meeting ten_oclock Map.empty
      = (Map.empty, [], Some ValueError)"
    unfolding timed_event_upcoming[OF pos] by (simp add: get_flag_def)
  then have "process_event sample_library ?now meeting SENT_REMINDERS_initial
     = (entry_created SENT_REMINDERS_initial ''e1'', [], Some ValueError)"
    by (simp add: process_event_timed[OF meeting_fields(1) sample_parse_meeting]
        meeting_fields(2) flags_of_def entry_created_def SENT_REMINDERS_initial_def)
  with w initial_not_fired show ?thesis by (simp add: has_fired_entry_created)
qed

text \<open>
  C9. The claim is about the message of an upcoming notification. The meeting is 59
  seconds ahead, in the window of the threshold 1, and the all-day event of the day
  follows it in the batch: the message is never built, since \<^verbatim>\<open>tzname\<close> raises inside
  the expression of lines 189 to 193; the check is left with \<^verbatim>\<open>ValueError\<close>, no
  notification is sent and the all-day event is not reached.
\<close>

theorem upcoming_message_never_built:
  "upcoming_message sample_library meeting ten_oclock (seconds 59) = Inl ValueError \<and>
   check_and_remind sample_library (ten_oclock - seconds 59) [meeting, holiday]
       SENT_REMINDERS_initial
     = (entry_created SENT_REMINDERS_initial ''e1'', [], Some ValueError)"
proof -
  let ?now = "ten_oclock - seconds 59"
  have w: "in_window (ten_oclock - ?now) 1"
    by (simp add: in_window_def minutes_def seconds_def)
  have pos: "0 < ten_oclock - ?now" by (simp add: seconds_def)
  from w have "timed_event sample_library ?now meeting ten_oclock Map.empty
      = (Map.empty, [], Some ValueError)"
    unfolding timed_event_upcoming[OF pos] by (simp add: get_flag_def)
  then have "process_event sample_library ?now meeting SENT_REMINDERS_initial
     = (entry_created SENT_REMINDERS_initial ''e1'', [], Some ValueError)"
    by (simp add: process_event_timed[OF meeting_fields(1) sample_parse_meeting]
        meeting_fields(2) flags_of_def entry_created_def SENT_REMINDERS_initial_def)
  then have "check_and_remind sample_library ?now [meeting, holiday] SENT_REMINDERS_initial
     = (entry_created SENT_REMINDERS_initial ''e1'', [], Some ValueError)"
    by (simp add: check_and_remind_def)
  with upcoming_message_raises show ?thesis by simp
qed

text \<open>
  C6. A run at clock \<open>now\<close> observes an event whose time to the event is at most 0. In
  that run, whatever its batch, and in all runs after it, whatever their clocks and
  batches (the event may have moved), from any table, no threshold notification is sent
  for the identifier of the event.
\<close>

theorem started_suppresses_thresholds:
  assumes "dateTime (start ev) = Some s" and "parse_start lib s = Some es"
      and "es - now \<le> seconds 0"
  shows "emitted (event_id ev) (Threshold m)
           (snd (scheduler_runs lib ((now, events) # later) S)) = 0"
  by (rule scheduler_runs_no_threshold)

theorem started_suppresses_thresholds_witness:
  "dateTime (start meeting) = Some ''2024-01-01T10:00:00Z'' \<and>
   parse_start sample_library ''2024-01-01T10:00:00Z'' = Some ten_oclock \<and>
   ten_oclock - (ten_oclock + seconds 1) \<le> seconds 0 \<and>
   emitted ''e1'' (Threshold 1) (snd (scheduler_runs sample_library
      [(ten_oclock + seconds 1, [meeting]), (ten_oclock + seconds 61, [holiday, meeting])]
      SENT_REMINDERS_initial)) = 0"
proof -
  have h3: "ten_oclock - (ten_oclock + seconds 1) \<le> seconds 0" by (simp add: seconds_def)
  from started_suppresses_thresholds[OF meeting_fields(1) sample_parse_meeting h3,
      where m = 1 and events = "[meeting]"
        and later = "[(ten_oclock + seconds 61, [holiday, meeting])]"
        and S = SENT_REMINDERS_initial]
    meeting_fields sample_parse_meeting h3
  show ?thesis by simp
qed

text \<open>
  C8. The claim says that over the runs of a day exactly one all-day notification is sent
  for an all-day event of that day. The flag has no date and is never cleared, so an
  all-day event that has had its notification and is moved to another day gets none on
  its new day. What holds, for an all-day event whose date parses: the notification is
  sent exactly when the date is the local date of the clock and the flag is not set; the
  flag is then set; nothing else is sent, nothing is raised and no other flag of the
  event changes (the timed logic does not run); over any runs at most one all-day
  notification is sent for the event; and exactly one over the runs of its day, however
  many they are, when the flag was not set before them and at least one of them gets as
  far as the event.
\<close>

theorem all_day_once_per_event:
  assumes "dateTime (start ev) = None" and "date (start ev) = Some d"
      and "strptime_date lib d = Some ed"
      and "process_event lib now ev S = (S', ns, r)"
  shows "(ns = [all_day_notification ev])
           = (ed = local_date lib now \<and> \<not> has_fired S (event_id ev) AllDayToday) \<and>
         (ns = [all_day_notification ev] \<or> ns = []) \<and> r = None \<and>
         (ns = [all_day_notification ev] \<longrightarrow> has_fired S' (event_id ev) AllDayToday) \<and>
         (\<forall>k. k \<noteq> AllDayToday \<longrightarrow>
              has_fired S' (event_id ev) k = has_fired S (event_id ev) k) \<and>
         emitted (event_id ev) AllDayToday (snd (scheduler_runs lib runs S0)) \<le> 1 \<and>
         (\<not> has_fired S0 (event_id ev) AllDayToday \<and>
          (\<forall>(now', events) \<in> set runs. local_date lib now' = ed) \<and>
          some_run_processes lib runs S0 ev
          \<longrightarrow> emitted (event_id ev) AllDayToday (snd (scheduler_runs lib runs S0)) = 1)"
proof -
  note pe = assms(4)[unfolded process_event_all_day_parsed[OF assms(1,2,3)]]
  note inv = scheduler_runs_inv[of lib runs S0 "fst (scheduler_runs lib runs S0)"
      "snd (scheduler_runs lib runs S0)" "event_id ev" AllDayToday]
  have 1: "(ns = [all_day_notification ev])
           = (ed = local_date lib now \<and> \<not> has_fired S (event_id ev) AllDayToday)"
    using pe by (auto split: if_splits)
  have 2: "(ns = [all_day_notification ev] \<or> ns = []) \<and> r = None"
    using pe by (auto split: if_splits)
  have 3: "ns = [all_day_notification ev] \<longrightarrow> has_fired S' (event_id ev) AllDayToday"
    using pe by (auto simp: has_fired_mark split: if_splits)
  have 4: "\<forall>k. k \<noteq> AllDayToday \<longrightarrow>
              has_fired S' (event_id ev) k = has_fired S (event_id ev) k"
    using pe by (auto simp: has_fired_mark has_fired_entry_created split: if_splits)
  have 5: "emitted (event_id ev) AllDayToday (snd (scheduler_runs lib runs S0)) \<le> 1"
    using inv by simp
  have 6: "emitted (event_id ev) AllDayToday (snd (scheduler_runs lib runs S0)) = 1"
    if "\<not> has_fired S0 (event_id ev) AllDayToday"
      and "\<forall>(now', events) \<in> set runs. local_date lib now' = ed"
      and "some_run_processes lib runs S0 ev"
  proof -
    have "has_fired (fst (scheduler_runs lib runs S0)) (event_id ev) AllDayToday"
      by (rule some_run_processes_fires[OF assms(1,2,3) that(2,3)])
    with that(1) inv show ?thesis by simp
  qed
  from 1 2 3 4 5 6 show ?thesis by blast
qed

theorem all_day_once_per_event_witness:
  "dateTime (start holiday) = None \<and> date (start holiday) = Some ''2024-01-01'' \<and>
   strptime_date sample_library ''2024-01-01'' = Some 738886 \<and>
   local_date sample_library ten_oclock = 738886 \<and>
   \<not> has_fired SENT_REMINDERS_initial ''e2'' AllDayToday \<and>
   some_run_processes sample_library
      [(ten_oclock, [meeting, holiday]), (ten_oclock + minutes 1, [holiday]),
       (ten_oclock + minutes 2, [holiday, meeting])] SENT_REMINDERS_initial holiday \<and>
   fst (snd (process_event sample_library ten_oclock holiday SENT_REMINDERS_initial))
     = [all_day_notification holiday] \<and>
   has_fired (fst (process_event sample_library ten_oclock holiday SENT_REMINDERS_initial))
     ''e2'' AllDayToday \<and>
   emitted ''e2'' AllDayToday (snd (scheduler_runs sample_library
      [(ten_oclock, [meeting, holiday]), (ten_oclock + minutes 1, [holiday]),
       (ten_oclock + minutes 2, [holiday, meeting])] SENT_REMINDERS_initial)) = 1"
proof -
  let ?p = "process_event sample_library ten_oclock holiday SENT_REMINDERS_initial"
  let ?runs = "[(ten_oclock, [meeting, holiday]), (ten_oclock + minutes 1, [holiday]),
       (ten_oclock + minutes 2, [holiday, meeting])]"
  have h4: "?p = (fst ?p, fst (snd ?p), snd (snd ?p))" by simp
  have h5: "\<not> has_fired SENT_REMINDERS_initial (event_id holiday) AllDayToday"
    by (rule initial_not_fired)
  have h6: "\<forall>(now', events) \<in> set ?runs. local_date sample_library now' = 738886"
    by (simp add: sample_local_date)
  have h7: "some_run_processes sample_library ?runs SENT_REMINDERS_initial holiday"
    by (simp add: sample_meeting_started meeting_def holiday_def)
  note T = all_day_once_per_event[OF holiday_fields(1,2) sample_parse_holiday(1) h4,
      where runs = ?runs and ?S0.0 = SENT_REMINDERS_initial]
  from T sample_local_date(1) h5 h6 h7
  have "fst (snd ?p) = [all_day_notification holiday]
      \<and> has_fired (fst ?p) (event_id holiday) AllDayToday
      \<and> emitted (event_id holiday) AllDayToday
            (snd (scheduler_runs sample_library ?runs SENT_REMINDERS_initial)) = 1"
    by simp
  with holiday_fields sample_parse_holiday(1) sample_local_date(1) h5 h7 show ?thesis by simp
qed

text \<open>
  C8, the claim as it is written: the all-day event has its notification on 1 January
  and is then moved to 2 January. Two runs on 2 January (15:30 and 15:31 local time)
  have it in their batch and process it; no all-day notification is sent for it.
\<close>

theorem all_day_moved_counterexample:
  "dateTime (start holiday_moved) = None \<and>
   date (start holiday_moved) = Some ''2024-01-02'' \<and>
   strptime_date sample_library ''2024-01-02'' = Some 738887 \<and>
   local_date sample_library (ten_oclock + minutes 1440) = 738887 \<and>
   local_date sample_library (ten_oclock + minutes 1441) = 738887 \<and>
   emitted ''e2'' AllDayToday (snd (scheduler_runs sample_library
      [(ten_oclock + minutes 1440, [holiday_moved]), (ten_oclock + minutes 1441, [holiday_moved])]
      (fst (scheduler_runs sample_library [(ten_oclock, [holiday])] SENT_REMINDERS_initial))))
     = 0"
proof -
  let ?S1 = "fst (scheduler_runs sample_library [(ten_oclock, [holiday])] SENT_REMINDERS_initial)"
  let ?runs = "[(ten_oclock + minutes 1440, [holiday_moved]),
      (ten_oclock + minutes 1441, [holiday_moved])]"
  have "process_event sample_library ten_oclock holiday SENT_REMINDERS_initial
      = (SENT_REMINDERS_initial(''e2'' \<mapsto> [AllDayToday \<mapsto> True]),
         [all_day_notification holiday], None)"
    by (simp add: process_event_all_day_parsed[OF holiday_fields(1,2) sample_parse_holiday(1)]
        sample_local_date(1) holiday_fields(3) flags_of_def has_fired_def
        SENT_REMINDERS_initial_def)
  then have "?S1 = SENT_REMINDERS_initial(''e2'' \<mapsto> [AllDayToday \<mapsto> True])"
    by (simp add: check_and_remind_def)
  then have f: "has_fired ?S1 ''e2'' AllDayToday"
    by (simp add: has_fired_def get_flag_def)
  from scheduler_runs_inv[of sample_library ?runs ?S1
      "fst (scheduler_runs sample_library ?runs ?S1)"
      "snd (scheduler_runs sample_library ?runs ?S1)" "''e2''" AllDayToday] f
  have "emitted ''e2'' AllDayToday (snd (scheduler_runs sample_library ?runs ?S1)) = 0"
    by simp
  with holiday_moved_fields(1,2) sample_parse_holiday(2) sample_local_date(4,5)
  show ?thesis by blast
qed

end
